theory Spec2Isabelle
  imports Main
begin

section \<open>Values, errors and connections\<close>

text \<open>
  The program is \<^verbatim>\<open>cdc_system.py\<close>: a change log kept in an SQLite table
  (\<^verbatim>\<open>CDCSystem\<close>), a replicator that drains it into a target table
  (\<^verbatim>\<open>CDCReplicator\<close>) and a monitor (\<^verbatim>\<open>CDCMonitor\<close>).  The SQL statements
  the Python code sends are modelled by what they do to the contents of the tables.

  Column values are the scalars that \<^verbatim>\<open>json_object\<close> writes for NULL, INTEGER and
  TEXT columns (REAL values are left out).
\<close>

datatype sql_value = SNull | SInt int | SText string

text \<open>
  The exceptions that the modelled code paths can raise.  \<open>OperationalError\<close> and
  \<open>IntegrityError\<close> are the ones of \<^verbatim>\<open>sqlite3\<close>.
\<close>

datatype error =
    JSONDecodeError
  | AttributeError
  | KeyError
  | IndexError
  | OperationalError
  | IntegrityError

type_synonym timestamp = nat

text \<open>
  A \<^verbatim>\<open>DatabaseConnection\<close>: statements work on \<open>current\<close>; \<^verbatim>\<open>commit()\<close> makes the
  current contents durable.  \<open>commits\<close> counts the calls of \<^verbatim>\<open>commit()\<close>, so that
  a call is visible even when it changes nothing.
\<close>

record 's connection =
  current :: 's
  committed :: 's
  commits :: nat

definition commit :: "'s connection \<Rightarrow> 's connection" where
  "commit c = c\<lparr>committed := current c, commits := commits c + 1\<rparr>"

definition execute :: "('s \<Rightarrow> 's) \<Rightarrow> 's connection \<Rightarrow> 's connection" where
  "execute stmt c = c\<lparr>current := stmt (current c)\<rparr>"

section \<open>The change log\<close>

text \<open>
  One row of the table \<^verbatim>\<open>{table}_cdc\<close>, with the columns that
  \<^verbatim>\<open>setup_trigger_based_cdc\<close> declares: \<^verbatim>\<open>old_data\<close> and \<^verbatim>\<open>new_data\<close> are
  nullable TEXT holding serialized JSON, \<^verbatim>\<open>synced\<close> is an INTEGER that the
  triggers leave at its default 0.  The functions of the reader below work on the
  contents of this table, a list of rows, which \<^verbatim>\<open>setup_trigger_based_cdc\<close> has
  created; \<^verbatim>\<open>cdc_id\<close> is its primary key.
\<close>

record cdc_row =
  cdc_id :: int
  operation :: string
  record_id :: int
  old_data :: "string option"
  new_data :: "string option"
  changed_at :: timestamp
  synced :: int
  sync_timestamp :: "timestamp option"

type_synonym cdc_log = "cdc_row list"

text \<open>
  What \<^verbatim>\<open>json.loads\<close> returns: a dict (insertion ordered, as an association
  list) or some other JSON document.  \<^verbatim>\<open>json.loads\<close> itself is library code;
  the functions below take it as the parameter \<open>loads\<close>, where \<open>None\<close> stands
  for \<^verbatim>\<open>JSONDecodeError\<close>.
\<close>

type_synonym py_dict = "(string \<times> sql_value) list"

datatype json = JObject py_dict | JOther

text \<open>
  The value under \<^verbatim>\<open>'old_data'\<close> or \<^verbatim>\<open>'new_data'\<close> of a returned change:
  \<^verbatim>\<open>None\<close> for NULL, the stored text itself when it is falsy (the empty string),
  the parsed document otherwise.
\<close>

datatype data = DNone | DText string | DJson json

record change =
  c_cdc_id :: int
  c_operation :: string
  c_record_id :: int
  c_old_data :: data
  c_new_data :: data
  c_changed_at :: timestamp
  c_synced :: int
  c_sync_timestamp :: "timestamp option"

subsection \<open>\<^verbatim>\<open>get_pending_changes\<close>\<close>

text \<open>
  \<^verbatim>\<open>LIMIT n\<close> in SQLite: a negative \<open>n\<close> means no upper bound.
\<close>

definition sql_limit :: "int \<Rightarrow> 'a list \<Rightarrow> 'a list" where
  "sql_limit n xs = (if n < 0 then xs else take (nat n) xs)"

text \<open>
  \<^verbatim>\<open>SELECT * FROM cdc WHERE synced = 0 ORDER BY cdc_id\<close>, with \<^verbatim>\<open>LIMIT {limit}\<close>
  appended under \<^verbatim>\<open>if limit:\<close>, which is false for \<^verbatim>\<open>None\<close> and for \<open>0\<close>.
\<close>

definition select_pending :: "cdc_log \<Rightarrow> int option \<Rightarrow> cdc_row list" where
  "select_pending log limit =
     (let rows = sort_key cdc_id (filter (\<lambda>r. synced r = 0) log)
      in case limit of
           None \<Rightarrow> rows
         | Some n \<Rightarrow> if n \<noteq> 0 then sql_limit n rows else rows)"

text \<open>
  \<^verbatim>\<open>if change.get(k): change[k] = json.loads(change[k])\<close>
\<close>

fun decode :: "(string \<Rightarrow> json option) \<Rightarrow> string option \<Rightarrow> error + data" where
  "decode loads None = Inr DNone"
| "decode loads (Some s) =
     (if s = [] then Inr (DText s)
      else case loads s of
             None \<Rightarrow> Inl JSONDecodeError
           | Some j \<Rightarrow> Inr (DJson j))"

definition to_change :: "(string \<Rightarrow> json option) \<Rightarrow> cdc_row \<Rightarrow> error + change" where
  "to_change loads r =
     (case decode loads (old_data r) of
        Inl e \<Rightarrow> Inl e
      | Inr od \<Rightarrow>
          (case decode loads (new_data r) of
             Inl e \<Rightarrow> Inl e
           | Inr nd \<Rightarrow>
               Inr \<lparr>c_cdc_id = cdc_id r, c_operation = operation r,
                    c_record_id = record_id r, c_old_data = od, c_new_data = nd,
                    c_changed_at = changed_at r, c_synced = synced r,
                    c_sync_timestamp = sync_timestamp r\<rparr>))"

text \<open>The loop over the fetched rows; the first exception leaves it.\<close>

fun to_changes :: "(string \<Rightarrow> json option) \<Rightarrow> cdc_row list \<Rightarrow> error + change list" where
  "to_changes loads [] = Inr []"
| "to_changes loads (r # rs) =
     (case to_change loads r of
        Inl e \<Rightarrow> Inl e
      | Inr c \<Rightarrow>
          (case to_changes loads rs of
             Inl e \<Rightarrow> Inl e
           | Inr cs \<Rightarrow> Inr (c # cs)))"

definition get_pending_changes ::
  "(string \<Rightarrow> json option) \<Rightarrow> cdc_log \<Rightarrow> int option \<Rightarrow> error + change list" where
  "get_pending_changes loads log limit = to_changes loads (select_pending log limit)"

subsection \<open>\<^verbatim>\<open>mark_as_synced\<close>\<close>

text \<open>
  \<^verbatim>\<open>UPDATE cdc SET synced = 1, sync_timestamp = CURRENT_TIMESTAMP WHERE cdc_id IN (...)\<close>;
  \<open>now\<close> is the value of \<^verbatim>\<open>CURRENT_TIMESTAMP\<close> when the statement runs.
\<close>

definition update_synced :: "timestamp \<Rightarrow> int list \<Rightarrow> cdc_log \<Rightarrow> cdc_log" where
  "update_synced now cdc_ids log =
     map (\<lambda>r. if cdc_id r \<in> set cdc_ids
               then r\<lparr>synced := 1, sync_timestamp := Some now\<rparr>
               else r) log"

definition mark_as_synced ::
  "timestamp \<Rightarrow> int list \<Rightarrow> cdc_log connection \<Rightarrow> cdc_log connection" where
  "mark_as_synced now cdc_ids db =
     (if cdc_ids = [] then db
      else commit (execute (update_synced now cdc_ids) db))"

subsection \<open>\<^verbatim>\<open>get_change_statistics\<close>\<close>

record op_stats =
  total :: nat
  pending :: nat
  synced_count :: nat

text \<open>
  One entry per group of \<^verbatim>\<open>GROUP BY operation\<close>; the dict is an association list
  whose keys are the distinct operations of the log.
\<close>

definition group_stats :: "cdc_log \<Rightarrow> string \<Rightarrow> op_stats" where
  "group_stats log op =
     \<lparr>total = length (filter (\<lambda>r. operation r = op) log),
      pending = length (filter (\<lambda>r. operation r = op \<and> synced r = 0) log),
      synced_count = length (filter (\<lambda>r. operation r = op \<and> synced r = 1) log)\<rparr>"

definition get_change_statistics :: "cdc_log \<Rightarrow> (string \<times> op_stats) list" where
  "get_change_statistics log =
     map (\<lambda>op. (op, group_stats log op)) (remdups (map operation log))"

section \<open>The monitor\<close>

record health_report =
  r_timestamp :: timestamp
  r_table :: string
  r_total_changes :: nat
  r_pending_changes :: nat
  r_synced_changes :: nat
  r_by_operation :: "(string \<times> op_stats) list"
  r_health_status :: string

definition get_health_report :: "timestamp \<Rightarrow> string \<Rightarrow> cdc_log \<Rightarrow> health_report" where
  "get_health_report now table_name log =
     (let stats = get_change_statistics log;
          total_pending = sum_list (map (\<lambda>(op, s). pending s) stats);
          total_synced = sum_list (map (\<lambda>(op, s). synced_count s) stats)
      in \<lparr>r_timestamp = now,
          r_table = table_name,
          r_total_changes = total_pending + total_synced,
          r_pending_changes = total_pending,
          r_synced_changes = total_synced,
          r_by_operation = stats,
          r_health_status = (if total_pending < 1000 then ''healthy'' else ''warning'')\<rparr>)"

section \<open>The target table\<close>

text \<open>
  The target relation is modelled as the replicator addresses it and as the tests
  declare it: a table whose primary key is the column \<^verbatim>\<open>id\<close>, declared
  \<^verbatim>\<open>INTEGER PRIMARY KEY\<close>, with \<^verbatim>\<open>NOT NULL\<close> constraints on some columns and no
  column defaults.  A stored row gives a value to every declared column, in the
  order of the declaration.  Text is never coerced to an integer.
\<close>

type_synonym row = "(string \<times> sql_value) list"

record table =
  t_columns :: "string list"
  t_notnull :: "string list"
  t_rows :: "row list"

definition column_value :: "row \<Rightarrow> string \<Rightarrow> sql_value" where
  "column_value r c = (case map_of r c of Some v \<Rightarrow> v | None \<Rightarrow> SNull)"

definition violates_notnull :: "table \<Rightarrow> row \<Rightarrow> bool" where
  "violates_notnull t r = list_ex (\<lambda>c. column_value r c = SNull) (t_notnull t)"

text \<open>The rowid that SQLite gives to a row inserted with a NULL \<^verbatim>\<open>id\<close>: 1 in an
  empty table, one more than the largest rowid otherwise.\<close>

definition rowid_of :: "row \<Rightarrow> int" where
  "rowid_of r = (case column_value r ''id'' of SInt k \<Rightarrow> k | _ \<Rightarrow> 0)"

definition next_rowid :: "row list \<Rightarrow> int" where
  "next_rowid rs = (case map rowid_of rs of [] \<Rightarrow> 1 | k # ks \<Rightarrow> fold max ks k + 1)"

text \<open>
  \<^verbatim>\<open>INSERT OR REPLACE INTO t (columns) VALUES (?, ...)\<close> with the items of a dict:
  a syntax error without columns, an error for a column the table does not have;
  the columns that are not named are NULL; a NULL \<^verbatim>\<open>id\<close> is given the next
  rowid and a text \<^verbatim>\<open>id\<close> is a datatype mismatch; a NULL in a \<^verbatim>\<open>NOT NULL\<close>
  column aborts the statement; a row with the same \<^verbatim>\<open>id\<close> is deleted before
  the new row is stored.
\<close>

definition insert_or_replace :: "py_dict \<Rightarrow> table \<Rightarrow> error + table" where
  "insert_or_replace d t =
     (if d = [] then Inl OperationalError
      else if \<not> set (map fst d) \<subseteq> set (t_columns t) then Inl OperationalError
      else
        (let r = map (\<lambda>c. (c, column_value d c)) (t_columns t)
         in case column_value r ''id'' of
              SText s \<Rightarrow> Inl IntegrityError
            | SNull \<Rightarrow>
                (let r' = map (\<lambda>(c, v). (c, if c = ''id'' then SInt (next_rowid (t_rows t)) else v)) r
                 in if violates_notnull t r' then Inl IntegrityError
                    else Inr (t\<lparr>t_rows := t_rows t @ [r']\<rparr>))
            | SInt k \<Rightarrow>
                (if violates_notnull t r then Inl IntegrityError
                 else Inr (t\<lparr>t_rows :=
                        filter (\<lambda>x. column_value x ''id'' \<noteq> SInt k) (t_rows t) @ [r]\<rparr>))))"

text \<open>
  \<^verbatim>\<open>UPDATE t SET k = ?, ... WHERE id = ?\<close>.  The assignments never name
  \<^verbatim>\<open>id\<close> (the caller leaves it out).  An empty \<^verbatim>\<open>SET\<close> clause is a syntax
  error; \<^verbatim>\<open>id = NULL\<close> is true of no row.
\<close>

definition id_is :: "sql_value \<Rightarrow> row \<Rightarrow> bool" where
  "id_is v r = (v \<noteq> SNull \<and> column_value r ''id'' = v)"

definition assign :: "py_dict \<Rightarrow> row \<Rightarrow> row" where
  "assign a r = map (\<lambda>(c, v). (c, case map_of a c of Some v' \<Rightarrow> v' | None \<Rightarrow> v)) r"

definition update_where_id :: "py_dict \<Rightarrow> sql_value \<Rightarrow> table \<Rightarrow> error + table" where
  "update_where_id a v t =
     (if a = [] then Inl OperationalError
      else if ''id'' \<notin> set (t_columns t) \<or> \<not> set (map fst a) \<subseteq> set (t_columns t)
        then Inl OperationalError
      else if list_ex (\<lambda>r. id_is v r \<and> violates_notnull t (assign a r)) (t_rows t)
        then Inl IntegrityError
      else Inr (t\<lparr>t_rows := map (\<lambda>r. if id_is v r then assign a r else r) (t_rows t)\<rparr>))"

text \<open>\<^verbatim>\<open>DELETE FROM t WHERE id = ?\<close>\<close>

definition delete_where_id :: "sql_value \<Rightarrow> table \<Rightarrow> error + table" where
  "delete_where_id v t =
     (if ''id'' \<notin> set (t_columns t) then Inl OperationalError
      else Inr (t\<lparr>t_rows := filter (\<lambda>r. \<not> id_is v r) (t_rows t)\<rparr>))"

section \<open>The replicator\<close>

text \<open>
  \<^verbatim>\<open>_apply_insert\<close>: \<^verbatim>\<open>data.keys()\<close> raises \<^verbatim>\<open>AttributeError\<close> when
  \<^verbatim>\<open>new_data\<close> is not a dict.
\<close>

definition apply_insert :: "change \<Rightarrow> table \<Rightarrow> error + table" where
  "apply_insert c t =
     (case c_new_data c of
        DJson (JObject d) \<Rightarrow> insert_or_replace d t
      | _ \<Rightarrow> Inl AttributeError)"

text \<open>
  \<^verbatim>\<open>_apply_update\<close>: the \<^verbatim>\<open>SET\<close> clause has the keys other than \<^verbatim>\<open>'id'\<close>;
  \<^verbatim>\<open>data['id']\<close> raises \<^verbatim>\<open>KeyError\<close> when the key is missing.
\<close>

definition apply_update :: "change \<Rightarrow> table \<Rightarrow> error + table" where
  "apply_update c t =
     (case c_new_data c of
        DJson (JObject d) \<Rightarrow>
          (case map_of d ''id'' of
             None \<Rightarrow> Inl KeyError
           | Some v \<Rightarrow> update_where_id (filter (\<lambda>(k, x). k \<noteq> ''id'') d) v t)
      | _ \<Rightarrow> Inl AttributeError)"

definition apply_delete :: "change \<Rightarrow> table \<Rightarrow> error + table" where
  "apply_delete c t = delete_where_id (SInt (c_record_id c)) t"

text \<open>
  The body of the \<^verbatim>\<open>try\<close> block up to the append: a change whose operation is
  none of the three is applied to nothing and raises nothing.
\<close>

definition apply_change :: "change \<Rightarrow> table \<Rightarrow> error + table" where
  "apply_change c t =
     (if c_operation c = ''INSERT'' then apply_insert c t
      else if c_operation c = ''UPDATE'' then apply_update c t
      else if c_operation c = ''DELETE'' then apply_delete c t
      else Inr t)"

text \<open>
  The loop of \<^verbatim>\<open>replicate_changes\<close>.  Its state is the target table (a statement
  that fails leaves it as it was), \<^verbatim>\<open>replicated_ids\<close>, and the ids that
  \<^verbatim>\<open>logger.error\<close> reports in the \<^verbatim>\<open>except\<close> branch.
\<close>

record loop_state =
  ls_table :: table
  replicated_ids :: "int list"
  error_ids :: "int list"

fun apply_loop :: "change list \<Rightarrow> loop_state \<Rightarrow> loop_state" where
  "apply_loop [] s = s"
| "apply_loop (c # cs) s =
     (case apply_change c (ls_table s) of
        Inr t' \<Rightarrow>
          apply_loop cs (s\<lparr>ls_table := t', replicated_ids := replicated_ids s @ [c_cdc_id c]\<rparr>)
      | Inl e \<Rightarrow>
          apply_loop cs (s\<lparr>error_ids := error_ids s @ [c_cdc_id c]\<rparr>))"

text \<open>
  What a call of \<^verbatim>\<open>replicate_changes\<close> gives: the count it returns, the two
  connections as it leaves them, and the ids it has reported with
  \<^verbatim>\<open>logger.error\<close>.
\<close>

record replication =
  rp_count :: nat
  rp_source :: "cdc_log connection"
  rp_target :: "table connection"
  rp_errors :: "int list"

text \<open>
  \<^verbatim>\<open>replicate_changes\<close>.  An exception of \<^verbatim>\<open>get_pending_changes\<close> is outside
  the \<^verbatim>\<open>try\<close> and leaves the call before anything is written.
\<close>

definition replicate_changes ::
  "(string \<Rightarrow> json option) \<Rightarrow> timestamp \<Rightarrow> int \<Rightarrow> cdc_log connection \<Rightarrow> table connection
     \<Rightarrow> error + replication" where
  "replicate_changes loads now batch_size src tgt =
     (case get_pending_changes loads (current src) (Some batch_size) of
        Inl e \<Rightarrow> Inl e
      | Inr changes \<Rightarrow>
          (if changes = [] then
             Inr \<lparr>rp_count = 0, rp_source = src, rp_target = tgt, rp_errors = []\<rparr>
           else
             (let s = apply_loop changes
                        \<lparr>ls_table = current tgt, replicated_ids = [], error_ids = []\<rparr>;
                  tgt' = tgt\<lparr>current := ls_table s\<rparr>
              in if replicated_ids s \<noteq> [] then
                   Inr \<lparr>rp_count = length (replicated_ids s),
                        rp_source = mark_as_synced now (replicated_ids s) src,
                        rp_target = commit tgt',
                        rp_errors = error_ids s\<rparr>
                 else
                   Inr \<lparr>rp_count = length (replicated_ids s),
                        rp_source = src,
                        rp_target = tgt',
                        rp_errors = error_ids s\<rparr>)))"

section \<open>Setting up the capture\<close>

text \<open>
  The schema of the source database: tables with their columns, indexes with
  their table and columns, triggers.  A trigger of
  \<^verbatim>\<open>setup_trigger_based_cdc\<close> inserts one row into the log table: the operation,
  the record id read from a column of \<^verbatim>\<open>OLD\<close> or \<^verbatim>\<open>NEW\<close>, and
  \<^verbatim>\<open>json_object\<close> of the listed columns of \<^verbatim>\<open>OLD\<close> and of \<^verbatim>\<open>NEW\<close>.
\<close>

datatype trigger_event = AfterInsert | AfterUpdate | AfterDelete

datatype row_ref = OLD | NEW

record trigger_def =
  tg_event :: trigger_event
  tg_on :: string
  tg_into :: string
  tg_operation :: string
  tg_record_id :: "row_ref \<times> string"
  tg_old_data :: "string list option"
  tg_new_data :: "string list option"

record catalog =
  tables :: "(string \<times> string list) list"
  indexes :: "(string \<times> string \<times> string list) list"
  triggers :: "(string \<times> trigger_def) list"

text \<open>
  A call that raises has still changed the connection up to the statement that
  failed, so an outcome carries the connection in both cases.
\<close>

datatype 's outcome = Done 's | Raised error 's

definition and_then :: "'s outcome \<Rightarrow> ('s \<Rightarrow> 's outcome) \<Rightarrow> 's outcome" where
  "and_then r f = (case r of Done s \<Rightarrow> f s | Raised e s \<Rightarrow> Raised e s)"

definition try_execute :: "('s \<Rightarrow> error + 's) \<Rightarrow> 's connection \<Rightarrow> 's connection outcome" where
  "try_execute stmt c =
     (case stmt (current c) of
        Inl e \<Rightarrow> Raised e c
      | Inr s \<Rightarrow> Done (c\<lparr>current := s\<rparr>))"

definition outcome_state :: "'s outcome \<Rightarrow> 's" where
  "outcome_state r = (case r of Done s \<Rightarrow> s | Raised e s \<Rightarrow> s)"

definition outcome_error :: "'s outcome \<Rightarrow> error option" where
  "outcome_error r = (case r of Done s \<Rightarrow> None | Raised e s \<Rightarrow> Some e)"

text \<open>\<^verbatim>\<open>CREATE TABLE IF NOT EXISTS name (columns)\<close>\<close>

definition create_table_if_not_exists :: "string \<Rightarrow> string list \<Rightarrow> catalog \<Rightarrow> error + catalog" where
  "create_table_if_not_exists name cols cat =
     (if name \<in> set (map fst (tables cat)) then Inr cat
      else Inr (cat\<lparr>tables := tables cat @ [(name, cols)]\<rparr>))"

text \<open>
  \<^verbatim>\<open>CREATE INDEX IF NOT EXISTS name ON tbl (columns)\<close>: an error when the table
  is missing, nothing when the index exists, an error when the table lacks a
  column.
\<close>

definition create_index_if_not_exists ::
  "string \<Rightarrow> string \<Rightarrow> string list \<Rightarrow> catalog \<Rightarrow> error + catalog" where
  "create_index_if_not_exists name tbl cols cat =
     (case map_of (tables cat) tbl of
        None \<Rightarrow> Inl OperationalError
      | Some tcols \<Rightarrow>
          (if name \<in> set (map fst (indexes cat)) then Inr cat
           else if \<not> set cols \<subseteq> set tcols then Inl OperationalError
           else Inr (cat\<lparr>indexes := indexes cat @ [(name, tbl, cols)]\<rparr>)))"

text \<open>
  \<^verbatim>\<open>CREATE TRIGGER IF NOT EXISTS name AFTER ... ON tbl BEGIN ... END\<close>: an error
  when the table is missing, nothing when the trigger exists.
\<close>

definition create_trigger_if_not_exists :: "string \<Rightarrow> trigger_def \<Rightarrow> catalog \<Rightarrow> error + catalog" where
  "create_trigger_if_not_exists name tg cat =
     (if tg_on tg \<notin> set (map fst (tables cat)) then Inl OperationalError
      else if name \<in> set (map fst (triggers cat)) then Inr cat
      else Inr (cat\<lparr>triggers := triggers cat @ [(name, tg)]\<rparr>))"

definition cdc_columns :: "string list" where
  "cdc_columns = [''cdc_id'', ''operation'', ''record_id'', ''old_data'', ''new_data'',
                  ''changed_at'', ''synced'', ''sync_timestamp'']"

text \<open>
  The three \<^verbatim>\<open>_create_*_trigger\<close> methods.  \<^verbatim>\<open>columns[0]\<close> raises
  \<^verbatim>\<open>IndexError\<close> on an empty list, while the statement is being built.
\<close>

definition create_insert_trigger ::
  "string \<Rightarrow> string list \<Rightarrow> catalog connection \<Rightarrow> catalog connection outcome" where
  "create_insert_trigger table_name columns db =
     (case columns of
        [] \<Rightarrow> Raised IndexError db
      | c0 # _ \<Rightarrow>
          and_then
            (try_execute
               (create_trigger_if_not_exists (table_name @ ''_insert_trigger'')
                  \<lparr>tg_event = AfterInsert, tg_on = table_name, tg_into = table_name @ ''_cdc'',
                   tg_operation = ''INSERT'', tg_record_id = (NEW, c0),
                   tg_old_data = None, tg_new_data = Some columns\<rparr>) db)
            (\<lambda>db. Done (commit db)))"

definition create_update_trigger ::
  "string \<Rightarrow> string list \<Rightarrow> catalog connection \<Rightarrow> catalog connection outcome" where
  "create_update_trigger table_name columns db =
     (case columns of
        [] \<Rightarrow> Raised IndexError db
      | c0 # _ \<Rightarrow>
          and_then
            (try_execute
               (create_trigger_if_not_exists (table_name @ ''_update_trigger'')
                  \<lparr>tg_event = AfterUpdate, tg_on = table_name, tg_into = table_name @ ''_cdc'',
                   tg_operation = ''UPDATE'', tg_record_id = (NEW, c0),
                   tg_old_data = Some columns, tg_new_data = Some columns\<rparr>) db)
            (\<lambda>db. Done (commit db)))"

definition create_delete_trigger ::
  "string \<Rightarrow> string list \<Rightarrow> catalog connection \<Rightarrow> catalog connection outcome" where
  "create_delete_trigger table_name columns db =
     (case columns of
        [] \<Rightarrow> Raised IndexError db
      | c0 # _ \<Rightarrow>
          and_then
            (try_execute
               (create_trigger_if_not_exists (table_name @ ''_delete_trigger'')
                  \<lparr>tg_event = AfterDelete, tg_on = table_name, tg_into = table_name @ ''_cdc'',
                   tg_operation = ''DELETE'', tg_record_id = (OLD, c0),
                   tg_old_data = Some columns, tg_new_data = None\<rparr>) db)
            (\<lambda>db. Done (commit db)))"

definition setup_trigger_based_cdc ::
  "string \<Rightarrow> string list \<Rightarrow> catalog connection \<Rightarrow> catalog connection outcome" where
  "setup_trigger_based_cdc table_name columns db =
     and_then (try_execute (create_table_if_not_exists (table_name @ ''_cdc'') cdc_columns) db)
       (\<lambda>db. and_then
          (try_execute
             (create_index_if_not_exists (''idx_'' @ table_name @ ''_cdc'' @ ''_synced'')
                (table_name @ ''_cdc'') [''synced'', ''cdc_id'']) db)
          (\<lambda>db. and_then (Done (commit db))
             (\<lambda>db. and_then (create_insert_trigger table_name columns db)
                (\<lambda>db. and_then (create_update_trigger table_name columns db)
                   (\<lambda>db. create_delete_trigger table_name columns db)))))"

section \<open>Notions used in the statements\<close>



text \<open>
  What may happen to a row of the log between two states: the captured columns
  stay, \<^verbatim>\<open>synced\<close> stays or becomes 1, and a row that is synced stays synced.
\<close>

definition log_step :: "cdc_row \<Rightarrow> cdc_row \<Rightarrow> bool" where
  "log_step r r' \<longleftrightarrow>
     cdc_id r' = cdc_id r \<and> operation r' = operation r \<and> record_id r' = record_id r
     \<and> old_data r' = old_data r \<and> new_data r' = new_data r \<and> changed_at r' = changed_at r
     \<and> (synced r' = synced r \<or> synced r' = 1)
     \<and> (synced r = 1 \<longrightarrow> synced r' = 1)"





text \<open>
  A target table is well formed when each stored row has the declared columns.
  \<open>laid_out\<close> is a dict laid out as a row of the table, a column without a key
  being NULL; \<open>updated_from\<close> says that a row is another row with the columns
  other than \<^verbatim>\<open>id\<close> taken from a dict where the dict has them.
\<close>

definition table_ok :: "table \<Rightarrow> bool" where
  "table_ok t = list_all (\<lambda>r. map fst r = t_columns t) (t_rows t)"



text \<open>No two tables, no two indexes and no two triggers of a schema share a name.\<close>

definition no_duplicates :: "catalog \<Rightarrow> bool" where
  "no_duplicates cat \<longleftrightarrow>
     distinct (map fst (tables cat)) \<and> distinct (map fst (indexes cat))
     \<and> distinct (map fst (triggers cat))"

section \<open>Concrete logs and tables\<close>

definition pending_insert :: "nat \<Rightarrow> cdc_row" where
  "pending_insert i =
     \<lparr>cdc_id = int i, operation = ''INSERT'', record_id = int i, old_data = None,
      new_data = None, changed_at = 0, synced = 0, sync_timestamp = None\<rparr>"

definition thousand_pending :: cdc_log where
  "thousand_pending = map pending_insert [1..<1001]"

definition two_pending :: "cdc_log connection" where
  "two_pending = \<lparr>current = [pending_insert 1, pending_insert 2],
                  committed = [pending_insert 1, pending_insert 2], commits = 0\<rparr>"

text \<open>
  A log of three captured inserts into a relation \<^verbatim>\<open>(id, name)\<close>, the second
  with a NULL name, and a target whose \<^verbatim>\<open>name\<close> is \<^verbatim>\<open>NOT NULL\<close>;
  \<open>demo_loads\<close> reads the three stored texts as \<^verbatim>\<open>json.loads\<close> does.
\<close>

definition demo_loads :: "string \<Rightarrow> json option" where
  \<open>demo_loads s =
     (if s = ''{"id": 1, "name": "ann"}''
        then Some (JObject [(''id'', SInt 1), (''name'', SText ''ann'')])
      else if s = ''{"id": 2, "name": null}''
        then Some (JObject [(''id'', SInt 2), (''name'', SNull)])
      else if s = ''{"id": 3, "name": "cy"}''
        then Some (JObject [(''id'', SInt 3), (''name'', SText ''cy'')])
      else if s = ''[1]'' then Some JOther
      else None)\<close>

definition ann_row :: cdc_row where
  \<open>ann_row =
     \<lparr>cdc_id = 1, operation = ''INSERT'', record_id = 1, old_data = None,
      new_data = Some ''{"id": 1, "name": "ann"}'', changed_at = 10, synced = 0,
      sync_timestamp = None\<rparr>\<close>

definition null_row :: cdc_row where
  \<open>null_row =
     \<lparr>cdc_id = 2, operation = ''INSERT'', record_id = 2, old_data = None,
      new_data = Some ''{"id": 2, "name": null}'', changed_at = 11, synced = 0,
      sync_timestamp = None\<rparr>\<close>

definition cy_row :: cdc_row where
  \<open>cy_row =
     \<lparr>cdc_id = 3, operation = ''INSERT'', record_id = 3, old_data = None,
      new_data = Some ''{"id": 3, "name": "cy"}'', changed_at = 12, synced = 0,
      sync_timestamp = None\<rparr>\<close>

definition demo_log :: cdc_log where
  "demo_log = [ann_row, null_row, cy_row]"

definition demo_source :: "cdc_log connection" where
  "demo_source = \<lparr>current = demo_log, committed = demo_log, commits = 0\<rparr>"

definition failing_source :: "cdc_log connection" where
  "failing_source = \<lparr>current = [null_row], committed = [null_row], commits = 0\<rparr>"

definition demo_table :: table where
  "demo_table = \<lparr>t_columns = [''id'', ''name''], t_notnull = [''name''], t_rows = []\<rparr>"

definition demo_target :: "table connection" where
  "demo_target = \<lparr>current = demo_table, committed = demo_table, commits = 0\<rparr>"

text \<open>The changes that \<^verbatim>\<open>get_pending_changes\<close> returns for the three rows.\<close>

definition ann_change :: change where
  "ann_change =
     \<lparr>c_cdc_id = 1, c_operation = ''INSERT'', c_record_id = 1, c_old_data = DNone,
      c_new_data = DJson (JObject [(''id'', SInt 1), (''name'', SText ''ann'')]),
      c_changed_at = 10, c_synced = 0, c_sync_timestamp = None\<rparr>"

definition null_change :: change where
  "null_change =
     \<lparr>c_cdc_id = 2, c_operation = ''INSERT'', c_record_id = 2, c_old_data = DNone,
      c_new_data = DJson (JObject [(''id'', SInt 2), (''name'', SNull)]),
      c_changed_at = 11, c_synced = 0, c_sync_timestamp = None\<rparr>"

definition cy_change :: change where
  "cy_change =
     \<lparr>c_cdc_id = 3, c_operation = ''INSERT'', c_record_id = 3, c_old_data = DNone,
      c_new_data = DJson (JObject [(''id'', SInt 3), (''name'', SText ''cy'')]),
      c_changed_at = 12, c_synced = 0, c_sync_timestamp = None\<rparr>"

text \<open>
  What \<^verbatim>\<open>replicate_changes(batch_size=2)\<close> returns and leaves at time 20 on the
  demo log and the empty demo target: row 1 is applied and marked, row 2 fails.
\<close>

definition partial_log :: cdc_log where
  "partial_log = [ann_row\<lparr>synced := 1, sync_timestamp := Some 20\<rparr>, null_row, cy_row]"

definition partial_table :: table where
  "partial_table = demo_table\<lparr>t_rows := [[(''id'', SInt 1), (''name'', SText ''ann'')]]\<rparr>"

definition partial_result :: replication where
  "partial_result =
     \<lparr>rp_count = 1,
      rp_source = \<lparr>current = partial_log, committed = partial_log, commits = 1\<rparr>,
      rp_target = \<lparr>current = partial_table, committed = partial_table, commits = 1\<rparr>,
      rp_errors = [2]\<rparr>"




text \<open>A source database that holds the relation \<^verbatim>\<open>users (id, name)\<close> and nothing else.\<close>

definition users_catalog :: catalog where
  "users_catalog = \<lparr>tables = [(''users'', [''id'', ''name''])], indexes = [], triggers = []\<rparr>"

definition users_db :: "catalog connection" where
  "users_db = \<lparr>current = users_catalog, committed = users_catalog, commits = 0\<rparr>"

section \<open>Properties of the reader\<close>

subsection \<open>Fetching\<close>



lemma to_change_fields:
  "to_change loads r = Inr c \<Longrightarrow>
   c_cdc_id c = cdc_id r \<and> c_operation c = operation r \<and> c_record_id c = record_id r
   \<and> c_changed_at c = changed_at r \<and> c_synced c = synced r
   \<and> c_sync_timestamp c = sync_timestamp r
   \<and> decode loads (old_data r) = Inr (c_old_data c)
   \<and> decode loads (new_data r) = Inr (c_new_data c)"
  by (auto simp: to_change_def split: sum.splits)

lemma to_changes_ids:
  "to_changes loads rs = Inr cs \<Longrightarrow> map c_cdc_id cs = map cdc_id rs"
  by (induction rs arbitrary: cs) (auto split: sum.splits dest: to_change_fields)



text \<open>
  C9.  \<^verbatim>\<open>get_pending_changes\<close> with \<open>limit = 0\<close> applies no cap: the call
  does what the call without a limit does, and what it returns has one change for
  every pending row of the log, in the order of \<^verbatim>\<open>cdc_id\<close>.
\<close>

theorem get_pending_changes_limit_zero:
  "get_pending_changes loads log (Some 0) = get_pending_changes loads log None
   \<and> (\<forall>cs. get_pending_changes loads log (Some 0) = Inr cs \<longrightarrow>
         map c_cdc_id cs = map cdc_id (sort_key cdc_id (filter (\<lambda>r. synced r = 0) log))
         \<and> length cs = length (filter (\<lambda>r. synced r = 0) log))"
proof -
  have rows: "select_pending log (Some 0) = sort_key cdc_id (filter (\<lambda>r. synced r = 0) log)"
    by (simp add: select_pending_def)
  have same: "get_pending_changes loads log (Some 0) = get_pending_changes loads log None"
    by (simp add: get_pending_changes_def select_pending_def)
  have every: "\<forall>cs. get_pending_changes loads log (Some 0) = Inr cs \<longrightarrow>
         map c_cdc_id cs = map cdc_id (sort_key cdc_id (filter (\<lambda>r. synced r = 0) log))
         \<and> length cs = length (filter (\<lambda>r. synced r = 0) log)"
  proof (intro allI impI)
    fix cs assume "get_pending_changes loads log (Some 0) = Inr cs"
    then have "to_changes loads (sort_key cdc_id (filter (\<lambda>r. synced r = 0) log)) = Inr cs"
      by (simp add: get_pending_changes_def rows)
    then have ids: "map c_cdc_id cs
                      = map cdc_id (sort_key cdc_id (filter (\<lambda>r. synced r = 0) log))"
      by (rule to_changes_ids)
    from arg_cong[OF ids, of length]
    have "length cs = length (filter (\<lambda>r. synced r = 0) log)" by simp
    with ids show "map c_cdc_id cs
                      = map cdc_id (sort_key cdc_id (filter (\<lambda>r. synced r = 0) log))
         \<and> length cs = length (filter (\<lambda>r. synced r = 0) log)" ..
  qed
  show ?thesis using same every by (rule conjI)
qed

text \<open>The log of two pending rows, fetched with limit 0: both rows come back.\<close>

theorem get_pending_changes_limit_zero_witness:
  "get_pending_changes demo_loads (current two_pending) (Some 0)
     = Inr [\<lparr>c_cdc_id = 1, c_operation = ''INSERT'', c_record_id = 1, c_old_data = DNone,
             c_new_data = DNone, c_changed_at = 0, c_synced = 0, c_sync_timestamp = None\<rparr>,
            \<lparr>c_cdc_id = 2, c_operation = ''INSERT'', c_record_id = 2, c_old_data = DNone,
             c_new_data = DNone, c_changed_at = 0, c_synced = 0, c_sync_timestamp = None\<rparr>]
   \<and> length (filter (\<lambda>r. synced r = 0) (current two_pending)) = 2"
proof -
  have fetch: "get_pending_changes demo_loads (current two_pending) (Some 0)
     = Inr [\<lparr>c_cdc_id = 1, c_operation = ''INSERT'', c_record_id = 1, c_old_data = DNone,
             c_new_data = DNone, c_changed_at = 0, c_synced = 0, c_sync_timestamp = None\<rparr>,
            \<lparr>c_cdc_id = 2, c_operation = ''INSERT'', c_record_id = 2, c_old_data = DNone,
             c_new_data = DNone, c_changed_at = 0, c_synced = 0, c_sync_timestamp = None\<rparr>]"
    by (simp add: get_pending_changes_def select_pending_def to_change_def two_pending_def
        pending_insert_def)
  from get_pending_changes_limit_zero[of demo_loads "current two_pending"] fetch
  have "length (filter (\<lambda>r. synced r = 0) (current two_pending)) = 2"
    by auto
  with fetch show ?thesis by (rule conjI)
qed















lemmas demo_eval =
  get_pending_changes_def select_pending_def sql_limit_def to_change_def demo_loads_def
  demo_log_def demo_source_def failing_source_def demo_table_def demo_target_def
  ann_row_def null_row_def cy_row_def ann_change_def null_change_def cy_change_def
  partial_log_def partial_table_def partial_result_def





subsection \<open>Marking\<close>

lemma current_mark_as_synced:
  "current (mark_as_synced now ids db) = update_synced now ids (current db)"
  by (simp add: mark_as_synced_def commit_def execute_def update_synced_def)














lemma log_step_update_synced:
  "list_all2 log_step log (update_synced now ids log)"
  by (induction log) (auto simp: update_synced_def log_step_def)

lemma log_step_refl: "list_all2 log_step log log"
  by (induction log) (auto simp: log_step_def)







section \<open>Properties of the replicator\<close>

subsection \<open>Applying one change\<close>











lemma apply_change_table_ok:
  assumes "apply_change c t = Inr t'" "table_ok t"
  shows "table_ok t'"
  using assms
  by (auto simp: apply_change_def apply_insert_def apply_update_def apply_delete_def
      insert_or_replace_def update_where_id_def delete_where_id_def table_ok_def
      list_all_iff assign_def Let_def comp_def case_prod_unfold
      split: if_splits data.splits json.splits option.splits sql_value.splits)




subsection \<open>The loop\<close>







lemma apply_loop_all_fail:
  "\<forall>c\<in>set cs. isl (apply_change c (ls_table s)) \<Longrightarrow>
   apply_loop cs s = s\<lparr>error_ids := error_ids s @ map c_cdc_id cs\<rparr>"
proof (induction cs arbitrary: s)
  case Nil
  then show ?case by simp
next
  case (Cons c cs)
  from Cons.prems obtain e where e: "apply_change c (ls_table s) = Inl e"
    by (cases "apply_change c (ls_table s)") auto
  let ?s' = "s\<lparr>error_ids := error_ids s @ [c_cdc_id c]\<rparr>"
  have "\<forall>c\<in>set cs. isl (apply_change c (ls_table ?s'))" using Cons.prems by simp
  from Cons.IH[OF this] show ?case using e by simp
qed

lemma apply_loop_replicated_mono:
  "length (replicated_ids s) \<le> length (replicated_ids (apply_loop cs s))"
proof (induction cs arbitrary: s)
  case Nil
  then show ?case by simp
next
  case (Cons c cs)
  show ?case
  proof (cases "apply_change c (ls_table s)")
    case (Inl e)
    then show ?thesis using Cons.IH[of "s\<lparr>error_ids := error_ids s @ [c_cdc_id c]\<rparr>"] by simp
  next
    case (Inr t')
    then show ?thesis
      using Cons.IH[of "s\<lparr>ls_table := t', replicated_ids := replicated_ids s @ [c_cdc_id c]\<rparr>"]
      by simp
  qed
qed

lemma apply_loop_none_applied:
  "length (replicated_ids (apply_loop cs s)) = length (replicated_ids s) \<Longrightarrow>
   ls_table (apply_loop cs s) = ls_table s"
proof (induction cs arbitrary: s)
  case Nil
  then show ?case by simp
next
  case (Cons c cs)
  show ?case
  proof (cases "apply_change c (ls_table s)")
    case (Inl e)
    then show ?thesis
      using Cons.IH[of "s\<lparr>error_ids := error_ids s @ [c_cdc_id c]\<rparr>"] Cons.prems by simp
  next
    case (Inr t')
    let ?s' = "s\<lparr>ls_table := t', replicated_ids := replicated_ids s @ [c_cdc_id c]\<rparr>"
    have "length (replicated_ids ?s') \<le> length (replicated_ids (apply_loop cs ?s'))"
      by (rule apply_loop_replicated_mono)
    then have False using Cons.prems Inr by simp
    then show ?thesis ..
  qed
qed

subsection \<open>\<^verbatim>\<open>replicate_changes\<close>\<close>




lemma demo_fetch_two:
  "get_pending_changes demo_loads (current demo_source) (Some 2) = Inr [ann_change, null_change]"
  by (simp add: demo_eval)

lemma demo_fetch_failing:
  "get_pending_changes demo_loads (current failing_source) (Some 100) = Inr [null_change]"
  by (simp add: demo_eval)

lemmas apply_eval =
  apply_change_def apply_insert_def insert_or_replace_def column_value_def
  violates_notnull_def demo_table_def demo_target_def partial_table_def
  ann_change_def null_change_def cy_change_def

lemma demo_apply_ann: "apply_change ann_change demo_table = Inr partial_table"
  by (simp add: apply_eval)

lemma demo_apply_null:
  "apply_change null_change demo_table = Inl IntegrityError"
  "apply_change null_change partial_table = Inl IntegrityError"
  by (simp_all add: apply_eval)

lemma demo_run:
  "replicate_changes demo_loads 20 2 demo_source demo_target = Inr partial_result"
  by (simp add: replicate_changes_def demo_fetch_two demo_apply_ann demo_apply_null
      demo_target_def)
     (simp add: partial_result_def mark_as_synced_def commit_def execute_def update_synced_def
      demo_source_def demo_log_def partial_log_def ann_change_def null_change_def
      ann_row_def null_row_def cy_row_def)




lemma replicate_changes_cases:
  assumes "replicate_changes loads now batch_size src tgt = Inr rp"
  shows "(rp_count rp = 0 \<and> rp_source rp = src \<and> rp_target rp = tgt)
       \<or> (0 < rp_count rp
           \<and> (\<exists>ids. ids \<noteq> [] \<and> rp_source rp = mark_as_synced now ids src)
           \<and> (\<exists>t. rp_target rp = commit (tgt\<lparr>current := t\<rparr>)))"
proof -
  from assms obtain cs where
    fetch: "get_pending_changes loads (current src) (Some batch_size) = Inr cs"
    by (auto simp: replicate_changes_def split: sum.splits)
  let ?init = "\<lparr>ls_table = current tgt, replicated_ids = [], error_ids = []\<rparr>"
  let ?fin = "apply_loop cs ?init"
  show ?thesis
  proof (cases "cs = []")
    case True
    then show ?thesis using assms fetch by (auto simp: replicate_changes_def)
  next
    case False
    show ?thesis
    proof (cases "replicated_ids ?fin = []")
      case True
      then have "length (replicated_ids ?fin) = length (replicated_ids ?init)" by simp
      then have "ls_table ?fin = current tgt"
        using apply_loop_none_applied[of cs ?init] by simp
      then show ?thesis
        using assms fetch False True by (auto simp: replicate_changes_def Let_def)
    next
      case nonempty: False
      then show ?thesis
        using assms fetch False by (auto simp: replicate_changes_def Let_def)
    qed
  qed
qed

text \<open>
  C10.  When the fetched batch is not empty and every change of it raises,
  \<^verbatim>\<open>replicate_changes\<close> returns 0 and leaves both connections as they were: no
  row is marked and neither connection has seen a \<^verbatim>\<open>commit()\<close>.  In general, a
  call that returns 0 leaves both connections as they were, and a call that
  returns a positive count has committed on the target, whose durable contents
  are then its current ones, and on the source.
\<close>

theorem replicate_changes_all_failed:
  "(get_pending_changes loads (current src) (Some batch_size) = Inr cs \<and> cs \<noteq> []
      \<and> (\<forall>c\<in>set cs. isl (apply_change c (current tgt))) \<longrightarrow>
      replicate_changes loads now batch_size src tgt
        = Inr \<lparr>rp_count = 0, rp_source = src, rp_target = tgt, rp_errors = map c_cdc_id cs\<rparr>)
   \<and> (replicate_changes loads now batch_size src tgt = Inr rp \<longrightarrow>
        (rp_count rp = 0 \<longrightarrow> rp_source rp = src \<and> rp_target rp = tgt)
        \<and> (0 < rp_count rp \<longrightarrow>
              commits (rp_target rp) = commits tgt + 1
              \<and> committed (rp_target rp) = current (rp_target rp)
              \<and> commits (rp_source rp) = commits src + 1))"
proof -
  have all_fail: "replicate_changes loads now batch_size src tgt
        = Inr \<lparr>rp_count = 0, rp_source = src, rp_target = tgt, rp_errors = map c_cdc_id cs\<rparr>"
    if fetch: "get_pending_changes loads (current src) (Some batch_size) = Inr cs"
      and ne: "cs \<noteq> []"
      and fail: "\<forall>c\<in>set cs. isl (apply_change c (current tgt))"
  proof -
    let ?init = "\<lparr>ls_table = current tgt, replicated_ids = [], error_ids = []\<rparr>"
    have "\<forall>c\<in>set cs. isl (apply_change c (ls_table ?init))" using fail by simp
    from apply_loop_all_fail[OF this]
    have "apply_loop cs ?init = ?init\<lparr>error_ids := map c_cdc_id cs\<rparr>" by simp
    then show ?thesis using fetch ne by (simp add: replicate_changes_def)
  qed
  have gate: "(rp_count rp = 0 \<longrightarrow> rp_source rp = src \<and> rp_target rp = tgt)
        \<and> (0 < rp_count rp \<longrightarrow>
              commits (rp_target rp) = commits tgt + 1
              \<and> committed (rp_target rp) = current (rp_target rp)
              \<and> commits (rp_source rp) = commits src + 1)"
    if "replicate_changes loads now batch_size src tgt = Inr rp"
    using replicate_changes_cases[OF that]
    by (auto simp: commit_def mark_as_synced_def execute_def)
  show ?thesis using all_fail gate by blast
qed

text \<open>
  The log that holds only row 2: the batch is that row, it violates \<^verbatim>\<open>NOT NULL\<close>,
  and nothing is written.  The batch of two from the demo log applies one change
  and commits once on the target.
\<close>

theorem replicate_changes_all_failed_witness:
  "get_pending_changes demo_loads (current failing_source) (Some 100) = Inr [null_change]
   \<and> isl (apply_change null_change (current demo_target))
   \<and> replicate_changes demo_loads 20 100 failing_source demo_target
       = Inr \<lparr>rp_count = 0, rp_source = failing_source, rp_target = demo_target,
              rp_errors = [2]\<rparr>
   \<and> replicate_changes demo_loads 20 2 demo_source demo_target = Inr partial_result
   \<and> 0 < rp_count partial_result
   \<and> commits (rp_target partial_result) = commits demo_target + 1"
proof -
  have fails: "isl (apply_change null_change (current demo_target))"
    by (simp add: demo_target_def demo_apply_null)
  then have all: "\<forall>c\<in>set [null_change]. isl (apply_change c (current demo_target))"
    by simp
  from replicate_changes_all_failed[of demo_loads failing_source 100 "[null_change]"
      demo_target 20 partial_result] demo_fetch_failing all
  have none: "replicate_changes demo_loads 20 100 failing_source demo_target
       = Inr \<lparr>rp_count = 0, rp_source = failing_source, rp_target = demo_target,
              rp_errors = map c_cdc_id [null_change]\<rparr>"
    by blast
  have pos: "0 < rp_count partial_result" by (simp add: partial_result_def)
  from replicate_changes_all_failed[of demo_loads demo_source 2 "[]" demo_target 20
      partial_result] demo_run pos
  have once: "commits (rp_target partial_result) = commits demo_target + 1"
    by blast
  show ?thesis
    using demo_fetch_failing fails none demo_run pos once by (simp add: null_change_def)
qed

text \<open>
  C7.  \<^verbatim>\<open>mark_as_synced\<close> and \<^verbatim>\<open>replicate_changes\<close>, the two operations that
  write the log, keep its rows in place, and for each row \<^verbatim>\<open>cdc_id\<close>,
  \<^verbatim>\<open>operation\<close>, \<^verbatim>\<open>record_id\<close>, \<^verbatim>\<open>old_data\<close>, \<^verbatim>\<open>new_data\<close> and
  \<^verbatim>\<open>changed_at\<close>; \<^verbatim>\<open>synced\<close> stays or becomes 1, and a row that is synced
  stays synced.  (\<^verbatim>\<open>get_pending_changes\<close>, \<^verbatim>\<open>get_change_statistics\<close> and
  \<^verbatim>\<open>get_health_report\<close> only read: they return no log.)
\<close>

theorem log_fields_immutable:
  "list_all2 log_step (current db) (current (mark_as_synced now ids db))
   \<and> (replicate_changes loads now batch_size src tgt = Inr rp \<longrightarrow>
        list_all2 log_step (current src) (current (rp_source rp)))"
proof -
  have "rp_source rp = src \<or> (\<exists>ids. rp_source rp = mark_as_synced now ids src)"
    if "replicate_changes loads now batch_size src tgt = Inr rp"
    using replicate_changes_cases[OF that] by blast
  then show ?thesis
    by (auto simp: current_mark_as_synced log_step_update_synced log_step_refl)
qed

text \<open>
  Marking row 1 of the log of two pending rows, and the batch of two from the demo
  log, which marks row 1 and leaves rows 2 and 3.
\<close>

theorem log_fields_immutable_witness:
  "list_all2 log_step (current two_pending) (current (mark_as_synced 5 [1] two_pending))
   \<and> replicate_changes demo_loads 20 2 demo_source demo_target = Inr partial_result
   \<and> list_all2 log_step (current demo_source) (current (rp_source partial_result))
   \<and> map new_data (current (rp_source partial_result)) = map new_data (current demo_source)
   \<and> map synced (current demo_source) = [0, 0, 0]
   \<and> map synced (current (rp_source partial_result)) = [1, 0, 0]"
proof -
  from log_fields_immutable[where db = two_pending and now = 5 and ids = "[1]"]
  have marked: "list_all2 log_step (current two_pending)
                  (current (mark_as_synced 5 [1] two_pending))"
    by blast
  from log_fields_immutable[where now = 20 and loads = demo_loads and batch_size = 2
      and src = demo_source and tgt = demo_target and rp = partial_result] demo_run
  have replicated: "list_all2 log_step (current demo_source) (current (rp_source partial_result))"
    by blast
  note steps = conjI[OF marked replicated]
  have vals: "map new_data (current (rp_source partial_result)) = map new_data (current demo_source)
   \<and> map synced (current demo_source) = [0, 0, 0]
   \<and> map synced (current (rp_source partial_result)) = [1, 0, 0]"
    by (simp add: partial_result_def partial_log_def demo_source_def demo_log_def
        ann_row_def null_row_def cy_row_def)
  show ?thesis using steps demo_run vals by simp
qed

section \<open>Properties of the setup\<close>

lemma current_commit: "current (commit c) = current c"
  by (simp add: commit_def)

lemma committed_commit: "committed (commit c) = current c"
  by (simp add: commit_def)

lemma and_then_Done: "and_then (Done s) f = f s"
  by (simp add: and_then_def)

lemma and_then_Raised: "and_then (Raised e s) f = Raised e s"
  by (simp add: and_then_def)

lemma try_execute_Inr: "stmt (current c) = Inr s \<Longrightarrow> try_execute stmt c = Done (c\<lparr>current := s\<rparr>)"
  by (simp add: try_execute_def)

lemma try_execute_Inl: "stmt (current c) = Inl e \<Longrightarrow> try_execute stmt c = Raised e c"
  by (simp add: try_execute_def)

lemma create_table_result:
  "\<exists>cat'. create_table_if_not_exists n cs cat = Inr cat'
      \<and> n \<in> set (map fst (tables cat'))
      \<and> (no_duplicates cat \<longrightarrow> no_duplicates cat')"
  by (auto simp: create_table_if_not_exists_def no_duplicates_def)

lemma create_table_exists:
  "n \<in> set (map fst (tables cat)) \<Longrightarrow> create_table_if_not_exists n cs cat = Inr cat"
  by (simp add: create_table_if_not_exists_def)

lemma create_index_result:
  assumes "create_index_if_not_exists n t cs cat = Inr cat'"
  shows "n \<in> set (map fst (indexes cat'))" and "tables cat' = tables cat"
    and "no_duplicates cat \<Longrightarrow> no_duplicates cat'"
  using assms
  by (auto simp: create_index_if_not_exists_def no_duplicates_def split: option.splits if_splits)

lemma create_index_exists:
  assumes "t \<in> set (map fst (tables cat))" "n \<in> set (map fst (indexes cat))"
  shows "create_index_if_not_exists n t cs cat = Inr cat"
proof -
  from assms(1) obtain tcols where "map_of (tables cat) t = Some tcols"
    by (metis map_of_eq_None_iff not_Some_eq set_map)
  then show ?thesis using assms(2) by (simp add: create_index_if_not_exists_def)
qed

lemma create_trigger_result:
  assumes "create_trigger_if_not_exists n g cat = Inr cat'"
  shows "n \<in> set (map fst (triggers cat'))" and "tables cat' = tables cat"
    and "indexes cat' = indexes cat"
    and "set (map fst (triggers cat)) \<subseteq> set (map fst (triggers cat'))"
    and "tg_on g \<in> set (map fst (tables cat))"
    and "no_duplicates cat \<Longrightarrow> no_duplicates cat'"
  using assms
  by (auto simp: create_trigger_if_not_exists_def no_duplicates_def split: if_splits)

lemma create_trigger_succeeds:
  "tg_on g \<in> set (map fst (tables cat)) \<Longrightarrow> \<exists>cat'. create_trigger_if_not_exists n g cat = Inr cat'"
  by (simp add: create_trigger_if_not_exists_def)

lemma create_trigger_exists:
  "tg_on g \<in> set (map fst (tables cat)) \<Longrightarrow> n \<in> set (map fst (triggers cat)) \<Longrightarrow>
   create_trigger_if_not_exists n g cat = Inr cat"
  by (simp add: create_trigger_if_not_exists_def)

text \<open>
  C8.  A second call of \<^verbatim>\<open>setup_trigger_based_cdc\<close> with the same relation and
  columns leaves the schema of the first call, in the connection and on disk, and
  ends as the first call did (it returns, or raises the same exception); and a
  call on a schema without duplicate names leaves a schema without duplicate
  names: no second log table, index or trigger.
\<close>

theorem setup_trigger_based_cdc_idempotent:
  "current (outcome_state (setup_trigger_based_cdc tn cols
       (outcome_state (setup_trigger_based_cdc tn cols db))))
     = current (outcome_state (setup_trigger_based_cdc tn cols db))
   \<and> committed (outcome_state (setup_trigger_based_cdc tn cols
       (outcome_state (setup_trigger_based_cdc tn cols db))))
     = committed (outcome_state (setup_trigger_based_cdc tn cols db))
   \<and> outcome_error (setup_trigger_based_cdc tn cols
       (outcome_state (setup_trigger_based_cdc tn cols db)))
     = outcome_error (setup_trigger_based_cdc tn cols db)
   \<and> (no_duplicates (current db) \<longrightarrow>
        no_duplicates (current (outcome_state (setup_trigger_based_cdc tn cols db))))"
proof -
  define T where "T = tn @ ''_cdc''"
  define I where "I = ''idx_'' @ tn @ ''_cdc'' @ ''_synced''"
  define mk where "mk = create_table_if_not_exists T cdc_columns"
  define ix where "ix = create_index_if_not_exists I T [''synced'', ''cdc_id'']"
  define ins where "ins = create_insert_trigger tn cols"
  define upd where "upd = create_update_trigger tn cols"
  define del where "del = create_delete_trigger tn cols"
  have setup_eq: "setup_trigger_based_cdc tn cols c =
     and_then (try_execute mk c)
       (\<lambda>c. and_then (try_execute ix c)
          (\<lambda>c. and_then (Done (commit c))
             (\<lambda>c. and_then (ins c) (\<lambda>c. and_then (upd c) (\<lambda>c. del c)))))" for c
    by (simp add: setup_trigger_based_cdc_def T_def I_def mk_def ix_def ins_def upd_def del_def)
  from create_table_result[of T cdc_columns "current db"] obtain cat1 where
    mk1: "mk (current db) = Inr cat1" and T1: "T \<in> set (map fst (tables cat1))"
    and nd1: "no_duplicates (current db) \<longrightarrow> no_duplicates cat1"
    unfolding mk_def by blast
  have mk_again: "mk cat = Inr cat" if "T \<in> set (map fst (tables cat))" for cat
    unfolding mk_def using that by (rule create_table_exists)
  show ?thesis
  proof (cases "ix cat1")
    case (Inl e)
    let ?c1 = "db\<lparr>current := cat1\<rparr>"
    have first: "setup_trigger_based_cdc tn cols db = Raised e ?c1"
      by (simp add: setup_eq try_execute_def mk1 Inl and_then_def)
    have second: "setup_trigger_based_cdc tn cols ?c1 = Raised e ?c1"
      by (simp add: setup_eq try_execute_def mk_again[OF T1] Inl and_then_def)
    show ?thesis
      using nd1 by (simp add: first second outcome_state_def outcome_error_def)
  next
    case (Inr cat2)
    have I2: "I \<in> set (map fst (indexes cat2))" and tabs2: "tables cat2 = tables cat1"
      and nd2: "no_duplicates cat1 \<Longrightarrow> no_duplicates cat2"
      using create_index_result[of I T "[''synced'', ''cdc_id'']" cat1 cat2] Inr
      unfolding ix_def by auto
    have T2: "T \<in> set (map fst (tables cat2))" using T1 tabs2 by simp
    have ix_again: "ix cat = Inr cat"
      if "T \<in> set (map fst (tables cat))" "I \<in> set (map fst (indexes cat))" for cat
      unfolding ix_def using that by (rule create_index_exists)
    let ?c2 = "commit (db\<lparr>current := cat2\<rparr>)"
    have cur2: "current ?c2 = cat2" "committed ?c2 = cat2" by (simp_all add: commit_def)
    have start: "setup_trigger_based_cdc tn cols db
        = and_then (ins ?c2) (\<lambda>c. and_then (upd c) (\<lambda>c. del c))"
      by (simp add: setup_eq try_execute_def mk1 Inr and_then_def)
    have restart: "setup_trigger_based_cdc tn cols c
        = and_then (ins (commit c)) (\<lambda>c. and_then (upd c) (\<lambda>c. del c))"
      if "T \<in> set (map fst (tables (current c)))" "I \<in> set (map fst (indexes (current c)))" for c
      by (simp add: setup_eq try_execute_def mk_again[OF that(1)] ix_again[OF that] and_then_def)
    show ?thesis
    proof (cases cols)
      case Nil
      have raise: "ins c = Raised IndexError c" for c
        by (simp add: ins_def Nil create_insert_trigger_def)
      have first: "setup_trigger_based_cdc tn cols db = Raised IndexError ?c2"
        by (simp add: start raise and_then_def)
      have second: "setup_trigger_based_cdc tn cols ?c2 = Raised IndexError (commit ?c2)"
        using restart[of ?c2] T2 I2 by (simp add: cur2 raise and_then_def)
      show ?thesis
        using nd1 nd2
        by (simp add: first second outcome_state_def outcome_error_def current_commit
            committed_commit)
    next
      case (Cons c0 rest)
      define gi where "gi = \<lparr>tg_event = AfterInsert, tg_on = tn, tg_into = tn @ ''_cdc'',
                   tg_operation = ''INSERT'', tg_record_id = (NEW, c0),
                   tg_old_data = None, tg_new_data = Some cols\<rparr>"
      define gu where "gu = \<lparr>tg_event = AfterUpdate, tg_on = tn, tg_into = tn @ ''_cdc'',
                   tg_operation = ''UPDATE'', tg_record_id = (NEW, c0),
                   tg_old_data = Some cols, tg_new_data = Some cols\<rparr>"
      define gd where "gd = \<lparr>tg_event = AfterDelete, tg_on = tn, tg_into = tn @ ''_cdc'',
                   tg_operation = ''DELETE'', tg_record_id = (OLD, c0),
                   tg_old_data = Some cols, tg_new_data = None\<rparr>"
      define Gi where "Gi = tn @ ''_insert_trigger''"
      define Gu where "Gu = tn @ ''_update_trigger''"
      define Gd where "Gd = tn @ ''_delete_trigger''"
      define ti where "ti = create_trigger_if_not_exists Gi gi"
      define tu where "tu = create_trigger_if_not_exists Gu gu"
      define td where "td = create_trigger_if_not_exists Gd gd"
      have on: "tg_on gi = tn" "tg_on gu = tn" "tg_on gd = tn"
        by (simp_all add: gi_def gu_def gd_def)
      have ins_eq: "ins c = and_then (try_execute ti c) (\<lambda>c. Done (commit c))" for c
        by (simp add: ins_def create_insert_trigger_def Cons ti_def gi_def Gi_def)
      have upd_eq: "upd c = and_then (try_execute tu c) (\<lambda>c. Done (commit c))" for c
        by (simp add: upd_def create_update_trigger_def Cons tu_def gu_def Gu_def)
      have del_eq: "del c = and_then (try_execute td c) (\<lambda>c. Done (commit c))" for c
        by (simp add: del_def create_delete_trigger_def Cons td_def gd_def Gd_def)
      show ?thesis
      proof (cases "ti cat2")
        case (Inl e)
        have first: "setup_trigger_based_cdc tn cols db = Raised e ?c2"
          by (simp add: start ins_eq try_execute_def cur2 Inl and_then_def)
        have second: "setup_trigger_based_cdc tn cols ?c2 = Raised e (commit ?c2)"
          using restart[of ?c2] T2 I2
          by (simp add: cur2 ins_eq try_execute_def Inl and_then_def commit_def)
        show ?thesis
          using nd1 nd2
        by (simp add: first second outcome_state_def outcome_error_def current_commit
            committed_commit)
      next
        case (Inr cat3)
        note r3 = create_trigger_result[OF Inr[unfolded ti_def]]
        have tn3: "tn \<in> set (map fst (tables cat3))" using r3(2) r3(5) on by simp
        from create_trigger_succeeds[of gu cat3 Gu] tn3 on obtain cat4 where
          u: "tu cat3 = Inr cat4" unfolding tu_def by auto
        note r4 = create_trigger_result[OF u[unfolded tu_def]]
        have tn4: "tn \<in> set (map fst (tables cat4))" using r4(2) tn3 by simp
        from create_trigger_succeeds[of gd cat4 Gd] tn4 on obtain cat5 where
          d: "td cat4 = Inr cat5" unfolding td_def by auto
        note r5 = create_trigger_result[OF d[unfolded td_def]]
        have tabs5: "tables cat5 = tables cat2" using r3(2) r4(2) r5(2) by simp
        have idx5: "indexes cat5 = indexes cat2" using r3(3) r4(3) r5(3) by simp
        have T5: "T \<in> set (map fst (tables cat5))" using T2 tabs5 by simp
        have I5: "I \<in> set (map fst (indexes cat5))" using I2 idx5 by simp
        have tn5: "tn \<in> set (map fst (tables cat5))" using r5(2) tn4 by simp
        have Gi5: "Gi \<in> set (map fst (triggers cat5))" using r3(1) r4(4) r5(4) by blast
        have Gu5: "Gu \<in> set (map fst (triggers cat5))" using r4(1) r5(4) by blast
        have Gd5: "Gd \<in> set (map fst (triggers cat5))" using r5(1) by blast
        have ti5: "ti cat5 = Inr cat5" unfolding ti_def
          using tn5 Gi5 on by (simp add: create_trigger_exists)
        have tu5: "tu cat5 = Inr cat5" unfolding tu_def
          using tn5 Gu5 on by (simp add: create_trigger_exists)
        have td5: "td cat5 = Inr cat5" unfolding td_def
          using tn5 Gd5 on by (simp add: create_trigger_exists)
        define c5 where "c5 = commit ((commit ((commit (?c2\<lparr>current := cat3\<rparr>))
                                \<lparr>current := cat4\<rparr>))\<lparr>current := cat5\<rparr>)"
        have cur5: "current c5 = cat5" "committed c5 = cat5" by (simp_all add: c5_def commit_def)
        have first: "setup_trigger_based_cdc tn cols db = Done c5"
          by (simp add: start ins_eq upd_eq del_eq try_execute_def cur2 Inr u d and_then_def
              commit_def c5_def)
        have second: "setup_trigger_based_cdc tn cols c5
            = Done (commit (commit (commit (commit c5))))"
          using restart[of c5] T5 I5
          by (simp add: cur5 ins_eq upd_eq del_eq try_execute_def ti5 tu5 td5 and_then_def
              commit_def)
        have nd5: "no_duplicates (current db) \<longrightarrow> no_duplicates cat5"
          using nd1 nd2 r3(6) r4(6) r5(6) by blast
        show ?thesis
          using nd5
          by (simp add: first second outcome_state_def outcome_error_def cur5 current_commit
              committed_commit)
      qed
    qed
  qed
qed

lemmas setup_eval =
  setup_trigger_based_cdc_def create_insert_trigger_def create_update_trigger_def
  create_delete_trigger_def and_then_def try_execute_def
  create_table_if_not_exists_def create_index_if_not_exists_def
  create_trigger_if_not_exists_def outcome_state_def outcome_error_def commit_def
  cdc_columns_def users_db_def users_catalog_def

text \<open>
  The first call on the database that holds \<^verbatim>\<open>users\<close> creates the log table,
  the index and the three triggers; the second call leaves them.
\<close>

theorem setup_trigger_based_cdc_idempotent_witness:
  "no_duplicates (current users_db)
   \<and> outcome_error (setup_trigger_based_cdc ''users'' [''id'', ''name''] users_db) = None
   \<and> map fst (tables (current (outcome_state
        (setup_trigger_based_cdc ''users'' [''id'', ''name''] users_db))))
       = [''users'', ''users_cdc'']
   \<and> map fst (indexes (current (outcome_state
        (setup_trigger_based_cdc ''users'' [''id'', ''name''] users_db))))
       = [''idx_users_cdc_synced'']
   \<and> map fst (triggers (current (outcome_state
        (setup_trigger_based_cdc ''users'' [''id'', ''name''] users_db))))
       = [''users_insert_trigger'', ''users_update_trigger'', ''users_delete_trigger'']
   \<and> current (outcome_state (setup_trigger_based_cdc ''users'' [''id'', ''name'']
        (outcome_state (setup_trigger_based_cdc ''users'' [''id'', ''name''] users_db))))
       = current (outcome_state (setup_trigger_based_cdc ''users'' [''id'', ''name''] users_db))
   \<and> no_duplicates (current (outcome_state
        (setup_trigger_based_cdc ''users'' [''id'', ''name''] users_db)))"
proof -
  have nd: "no_duplicates (current users_db)"
    by (simp add: no_duplicates_def users_db_def users_catalog_def)
  have first: "outcome_error (setup_trigger_based_cdc ''users'' [''id'', ''name''] users_db) = None
   \<and> map fst (tables (current (outcome_state
        (setup_trigger_based_cdc ''users'' [''id'', ''name''] users_db))))
       = [''users'', ''users_cdc'']
   \<and> map fst (indexes (current (outcome_state
        (setup_trigger_based_cdc ''users'' [''id'', ''name''] users_db))))
       = [''idx_users_cdc_synced'']
   \<and> map fst (triggers (current (outcome_state
        (setup_trigger_based_cdc ''users'' [''id'', ''name''] users_db))))
       = [''users_insert_trigger'', ''users_update_trigger'', ''users_delete_trigger'']"
    by (simp add: setup_eval)
  from setup_trigger_based_cdc_idempotent[of "''users''" "[''id'', ''name'']" users_db] nd
  have second: "current (outcome_state (setup_trigger_based_cdc ''users'' [''id'', ''name'']
        (outcome_state (setup_trigger_based_cdc ''users'' [''id'', ''name''] users_db))))
       = current (outcome_state (setup_trigger_based_cdc ''users'' [''id'', ''name''] users_db))
   \<and> no_duplicates (current (outcome_state
        (setup_trigger_based_cdc ''users'' [''id'', ''name''] users_db)))"
    by blast
  show ?thesis
    by (rule conjI[OF nd conjI[OF first[THEN conjunct1] conjI[OF first[THEN conjunct2, THEN conjunct1]
          conjI[OF first[THEN conjunct2, THEN conjunct2, THEN conjunct1]
          conjI[OF first[THEN conjunct2, THEN conjunct2, THEN conjunct2] second]]]]])
qed

section \<open>Properties of the monitor\<close>

lemma sum_indicator_distinct:
  "distinct ks \<Longrightarrow>
   sum_list (map (\<lambda>k. if k = a then (1::nat) else 0) ks) = (if a \<in> set ks then 1 else 0)"
  by (induction ks) auto

lemma sum_groups:
  "distinct ks \<Longrightarrow> f ` set xs \<subseteq> set ks \<Longrightarrow>
   sum_list (map (\<lambda>k. length (filter (\<lambda>r. f r = k \<and> P r) xs)) ks) = length (filter P xs)"
proof (induction xs)
  case Nil
  then show ?case by simp
next
  case (Cons x xs)
  have mem: "f x \<in> set ks" using Cons.prems by auto
  have split: "\<And>k. length (filter (\<lambda>r. f r = k \<and> P r) (x # xs))
      = (if k = f x then (if P x then 1 else 0) else 0)
        + length (filter (\<lambda>r. f r = k \<and> P r) xs)"
    by auto
  have "sum_list (map (\<lambda>k. length (filter (\<lambda>r. f r = k \<and> P r) (x # xs))) ks)
      = sum_list (map (\<lambda>k. (if k = f x then (if P x then 1 else 0) else 0)) ks)
        + sum_list (map (\<lambda>k. length (filter (\<lambda>r. f r = k \<and> P r) xs)) ks)"
    unfolding split by (simp add: sum_list_addf)
  also have "sum_list (map (\<lambda>k. (if k = f x then (if P x then 1 else 0) else 0)) ks)
      = (if P x then 1 else (0::nat))"
    using sum_indicator_distinct[OF Cons.prems(1), of "f x"] mem
    by (cases "P x") auto
  also have "sum_list (map (\<lambda>k. length (filter (\<lambda>r. f r = k \<and> P r) xs)) ks)
      = length (filter P xs)"
    using Cons by auto
  finally show ?case by simp
qed

lemma total_pending_eq:
  "sum_list (map (\<lambda>(op, s). pending s) (get_change_statistics log))
     = length (filter (\<lambda>r. synced r = 0) log)"
  using sum_groups[of "remdups (map operation log)" operation log "\<lambda>r. synced r = 0"]
  by (simp add: get_change_statistics_def group_stats_def comp_def)

lemma report_pending:
  "r_pending_changes (get_health_report now tn log) = length (filter (\<lambda>r. synced r = 0) log)"
  by (simp add: get_health_report_def Let_def total_pending_eq)

lemma report_status:
  "r_health_status (get_health_report now tn log) =
     (if length (filter (\<lambda>r. synced r = 0) log) < 1000 then ''healthy'' else ''warning'')"
  by (simp add: get_health_report_def Let_def total_pending_eq)

lemma thousand_pending_count:
  "length (filter (\<lambda>r. synced r = 0) thousand_pending) = 1000"
  by (simp add: thousand_pending_def filter_map comp_def pending_insert_def)

text \<open>
  C3, as the code has it.  \<^verbatim>\<open>pending_changes\<close> of the report is the number of
  rows of the log with \<^verbatim>\<open>synced = 0\<close>, over all operations; the status is
  \<^verbatim>\<open>warning\<close> exactly when that number is at least 1000 and \<^verbatim>\<open>healthy\<close> exactly
  when it is below 1000; on an empty log the report has \<^verbatim>\<open>total_changes = 0\<close>
  and the status \<^verbatim>\<open>healthy\<close>.
\<close>

theorem health_report_status:
  "r_pending_changes (get_health_report now tn log) = length (filter (\<lambda>r. synced r = 0) log)
   \<and> (r_health_status (get_health_report now tn log) = ''warning'')
       = (1000 \<le> r_pending_changes (get_health_report now tn log))
   \<and> (r_health_status (get_health_report now tn log) = ''healthy'')
       = (r_pending_changes (get_health_report now tn log) < 1000)
   \<and> r_total_changes (get_health_report now tn []) = 0
   \<and> r_health_status (get_health_report now tn []) = ''healthy''"
  by (simp add: report_pending report_status)
     (simp add: get_health_report_def get_change_statistics_def)

text \<open>
  The claim as the spec states it fails at the threshold: with exactly 1000
  pending rows the pending count does not exceed 1000, and the status is
  \<^verbatim>\<open>warning\<close>.
\<close>

theorem health_report_status_counterexample:
  "r_pending_changes (get_health_report 0 ''users'' thousand_pending) = 1000
   \<and> \<not> (1000 < r_pending_changes (get_health_report 0 ''users'' thousand_pending))
   \<and> r_health_status (get_health_report 0 ''users'' thousand_pending) = ''warning''"
  by (simp add: report_pending report_status thousand_pending_count)

end
